theory Spec2Isabelle
  imports
    Complex_Main
    "HOL-Library.Char_ord"
    "HOL-Library.List_Lexorder"
    "HOL-Library.Option_ord"
    "HOL-Library.Multiset"
begin

section \<open>Python string operations used by the sources\<close>

text \<open>
  A Python string is modelled as a \<^typ>\<open>string\<close>, one character per code point, for the
  code points below 256. On these, \<^verbatim>\<open>str.isspace\<close> holds of the controls 9 to 13,
  the separators 28 to 31, the space, and the code points 133 (next line) and 160
  (no-break space).
\<close>

definition py_isspace :: "char \<Rightarrow> bool" where
  "py_isspace c = (of_char c \<in> {9::nat, 10, 11, 12, 13, 28, 29, 30, 31, 32, 133, 160})"

definition strip :: "string \<Rightarrow> string" where
  "strip s = rev (dropWhile py_isspace (rev (dropWhile py_isspace s)))"

definition startswith :: "string \<Rightarrow> string \<Rightarrow> bool" where
  "startswith s p = (take (length p) s = p)"

definition endswith :: "string \<Rightarrow> string \<Rightarrow> bool" where
  "endswith s p = (length p \<le> length s \<and> drop (length s - length p) s = p)"

text \<open>\<^verbatim>\<open>p in s\<close>: \<open>p\<close> occurs in \<open>s\<close> as a contiguous substring.\<close>

fun contains :: "string \<Rightarrow> string \<Rightarrow> bool" where
  "contains [] p = (p = [])"
| "contains (c # cs) p = (startswith (c # cs) p \<or> contains cs p)"

text \<open>\<^verbatim>\<open>s.split(']', 1)[-1]\<close>: the text after the first closing bracket, or all of
  \<open>s\<close> when it has none.\<close>

definition after_first_bracket :: "string \<Rightarrow> string" where
  "after_first_bracket s =
     (case dropWhile (\<lambda>c. c \<noteq> CHR '']'') s of [] \<Rightarrow> s | _ # rest \<Rightarrow> rest)"

text \<open>\<^verbatim>\<open>str.lower\<close> on the code points below 256: the letters A to Z and the
  capital letters 192 to 222, the multiplication sign 215 apart, move up by 32.\<close>

definition lower_char :: "char \<Rightarrow> char" where
  "lower_char c =
     (let n = (of_char c :: nat) in
      if (65 \<le> n \<and> n \<le> 90) \<or> (192 \<le> n \<and> n \<le> 222 \<and> n \<noteq> 215)
      then char_of (n + 32) else c)"

definition lower :: "string \<Rightarrow> string" where
  "lower s = map lower_char s"

text \<open>The exceptions of the sources that the model tells apart.\<close>

datatype py_error = OverflowError | OperationalError | AttributeError | TypeError | BindingError

text \<open>Truthiness of an optional string: \<^verbatim>\<open>None\<close> and the empty string are falsy.\<close>

fun truthy :: "string option \<Rightarrow> bool" where
  "truthy None = False"
| "truthy (Some s) = (s \<noteq> [])"

section \<open>The summarization gate (summarization.py)\<close>

text \<open>
  The message dictionaries the gate receives: \<open>fm_summary\<close> is \<open>None\<close> when the dictionary
  has no \<^verbatim>\<open>summary\<close> key (or holds \<^verbatim>\<open>None\<close> there).
\<close>

record file_message =
  fm_uuid :: string
  fm_message_type :: string
  fm_content :: string
  fm_timestamp :: "string option"
  fm_summary :: "string option"

definition noise_patterns :: "string list" where
  "noise_patterns =
     [''[Tool: Read]'', ''[Tool: Glob]'', ''[Tool: LS]'', ''[Tool: Grep]'',
      ''[Tool result]'', ''[Request interrupted]'']"

definition ack_phrases :: "string list" where
  "ack_phrases =
     [''let me read'', ''let me check'', ''let me search'',
      ''i'' @ [CHR 0x27] @ ''ll look at'', ''looking at'', ''checking'']"

definition is_tool_noise :: "file_message \<Rightarrow> bool" where
  "is_tool_noise message =
     (let content = fm_content message; msg_type = fm_message_type message in
      if startswith (strip content) ''[Tool'' then True
      else if strip content = ''[Tool result]'' then True
      else if contains content ''[Request interrupted'' then True
      else if strip content = [] then True
      else if length content < 50 then False
      else if list_ex (\<lambda>pattern. contains content pattern) noise_patterns then
        (let text_after_tool = strip (after_first_bracket content) in
         if length text_after_tool > 100 then False else True)
      else if msg_type = ''assistant'' \<and> length content < 150
              \<and> list_ex (\<lambda>phrase. contains (lower content) phrase) ack_phrases then True
      else False)"

definition is_truncated_summary :: "string \<Rightarrow> string \<Rightarrow> bool" where
  "is_truncated_summary summary full_content =
     (if summary = [] then True
      else (endswith summary ''...''
            \<or> (145 \<le> length summary \<and> length summary \<le> 150
                 \<and> length full_content > length summary)
            \<or> startswith summary ''[Tool''
            \<or> length summary < 20))"

definition needs_summarization :: "file_message \<Rightarrow> bool \<times> string" where
  "needs_summarization message =
     (let content = fm_content message;
          summary = (case fm_summary message of None \<Rightarrow> [] | Some s \<Rightarrow> s) in
      if is_tool_noise message then (False, ''tool_noise'')
      else if length content < 50 then (False, ''too_short'')
      else if summary \<noteq> [] \<and> \<not> is_truncated_summary summary content
        then (False, ''already_done'')
      else (True, ''needs_summary''))"

subsection \<open>The placeholder rule as the specification words it\<close>

text \<open>
  The specification's wording of the placeholder rule, kept apart from the source's
  \<open>is_truncated_summary\<close> so that the two can be compared: the second alternative asks
  that the full content begin with the summary's non-ellipsis prefix.
\<close>

definition non_ellipsis_prefix :: "string \<Rightarrow> string" where
  "non_ellipsis_prefix s = (if endswith s ''...'' then take (length s - 3) s else s)"

definition spec_is_placeholder :: "string \<Rightarrow> string \<Rightarrow> bool" where
  "spec_is_placeholder s c =
     (endswith s ''...''
      \<or> (145 \<le> length s \<and> length s \<le> 150 \<and> startswith c (non_ellipsis_prefix s))
      \<or> startswith s ''[Tool''
      \<or> length s < 20)"

subsection \<open>Sample messages for the gate\<close>

definition m49 :: file_message where
  "m49 = \<lparr>fm_uuid = ''u1'', fm_message_type = ''user'', fm_content = replicate 49 (CHR ''a''),
          fm_timestamp = None, fm_summary = None\<rparr>"

definition m50 :: file_message where
  "m50 = \<lparr>fm_uuid = ''u2'', fm_message_type = ''user'', fm_content = replicate 50 (CHR ''a''),
          fm_timestamp = None, fm_summary = None\<rparr>"

definition mtool :: file_message where
  "mtool = \<lparr>fm_uuid = ''u3'', fm_message_type = ''assistant'', fm_content = ''[Tool: Read]'',
          fm_timestamp = None, fm_summary = None\<rparr>"

section \<open>The indexing store and the indexer (indexer.py)\<close>

subsection \<open>Parsed input\<close>

text \<open>
  A message dictionary as \<open>parse_conversation_file\<close> builds it. Fields read with
  \<^verbatim>\<open>data.get\<close> are optional; \<open>m_uuid\<close> is read with \<^verbatim>\<open>data['uuid']\<close>.
\<close>

record message =
  m_uuid :: string
  m_parent_uuid :: "string option"
  m_is_sidechain :: bool
  m_timestamp :: "string option"
  m_message_type :: string
  m_content :: string
  m_session_id :: "string option"

text \<open>
  The summary header of a file, when its first line is one. \<open>cm_summary\<close> is \<open>None\<close> when
  the header has no \<^verbatim>\<open>summary\<close> key and \<open>Some v\<close> when it has one with value \<open>v\<close>
  (\<open>v\<close> itself \<open>None\<close> for a JSON null).
\<close>

record conv_meta =
  cm_leafUuid :: "string option"
  cm_summary :: "string option option"

text \<open>
  A conversation file together with what \<open>parse_conversation_file\<close> returns for it:
  \<open>cf_path\<close> is \<^verbatim>\<open>str(file_path)\<close>, \<open>cf_parent_name\<close> is
  \<^verbatim>\<open>file_path.parent.name\<close>.
\<close>

record conversation_file =
  cf_path :: string
  cf_parent_name :: string
  cf_meta :: "conv_meta option"
  cf_messages :: "message list"

subsection \<open>Tables\<close>

text \<open>
  Rows hold the columns the \<^verbatim>\<open>INSERT\<close> and \<^verbatim>\<open>UPDATE\<close> statements of the
  sources write. A table is the list of its rows in insertion order.
\<close>

record conversation_row =
  c_session_id :: string
  c_project_path :: string
  c_conversation_file :: string
  c_root_message_uuid :: string
  c_leaf_message_uuid :: "string option"
  c_conversation_summary :: "string option"
  c_first_message_at :: "string option"
  c_last_message_at :: "string option"
  c_message_count :: nat

record message_row =
  r_message_uuid :: string
  r_session_id :: string
  r_parent_uuid :: "string option"
  r_is_sidechain :: bool
  r_depth :: nat
  r_timestamp :: "string option"
  r_message_type :: string
  r_project_path :: string
  r_conversation_file :: string
  r_summary :: string
  r_full_content :: string
  r_is_summarized :: bool
  r_summary_method :: "string option"

record store =
  conversations :: "conversation_row list"
  messages :: "message_row list"

definition empty_store :: store where
  "empty_store = \<lparr>conversations = [], messages = []\<rparr>"

text \<open>
  Modelled from the spec: the schema file is not among the sources. The specification
  gives \<open>session_id\<close> as the primary key of \<open>conversations\<close> and the message id as the
  primary key of \<open>messages\<close>, so an insert of a key already present is refused
  (\<open>None\<close> stands for the integrity error); a fresh message row is not summarized and has
  no summary method.
\<close>

definition insert_conversation :: "conversation_row list \<Rightarrow> conversation_row \<Rightarrow> conversation_row list option" where
  "insert_conversation tbl row =
     (if c_session_id row \<in> c_session_id ` set tbl then None else Some (tbl @ [row]))"

definition insert_message :: "message_row list \<Rightarrow> message_row \<Rightarrow> message_row list option" where
  "insert_message tbl row =
     (if r_message_uuid row \<in> r_message_uuid ` set tbl then None else Some (tbl @ [row]))"

definition default_is_summarized :: bool where
  "default_is_summarized = False"

definition default_summary_method :: "string option" where
  "default_summary_method = None"

subsection \<open>Depth computation\<close>

definition children_of :: "message list \<Rightarrow> string \<Rightarrow> string list" where
  "children_of msgs u = map m_uuid (filter (\<lambda>m. m_parent_uuid m = Some u) msgs)"

text \<open>
  The \<^verbatim>\<open>while queue\<close> loop of \<open>calculate_depth\<close>; \<open>None\<close> is the loop that never
  ends.
\<close>

partial_function (option) bfs :: "message list \<Rightarrow> (string \<times> nat) list \<Rightarrow> (string \<rightharpoonup> nat) \<Rightarrow> (string \<rightharpoonup> nat) option" where
  "bfs msgs queue depths =
     (case queue of
        [] \<Rightarrow> Some depths
      | (u, depth) # rest \<Rightarrow>
          bfs msgs (rest @ map (\<lambda>child_uuid. (child_uuid, depth + 1)) (children_of msgs u))
            (depths(u \<mapsto> depth)))"

declare bfs.simps [code]

definition calculate_depth :: "message list \<Rightarrow> (string \<rightharpoonup> nat) option" where
  "calculate_depth msgs =
     (let roots = map m_uuid (filter (\<lambda>m. \<not> truthy (m_parent_uuid m)) msgs) in
      bfs msgs (map (\<lambda>root_uuid. (root_uuid, 0)) roots) Map.empty)"

subsection \<open>Indexing one file\<close>

datatype outcome = Indexed | NoMessages | NoSessionId | IntegrityError

definition project_path_of :: "string \<Rightarrow> string" where
  "project_path_of parent_name = map (\<lambda>c. if c = CHR ''-'' then CHR ''/'' else c) parent_name"

definition root_message :: "message list \<Rightarrow> message" where
  "root_message msgs =
     (case find (\<lambda>m. \<not> truthy (m_parent_uuid m)) msgs of Some m \<Rightarrow> m | None \<Rightarrow> hd msgs)"

definition conversation_summary_of :: "conv_meta option \<Rightarrow> string option" where
  "conversation_summary_of meta =
     (case meta of
        None \<Rightarrow> None
      | Some cm \<Rightarrow> (case cm_summary cm of None \<Rightarrow> Some ''Untitled conversation'' | Some v \<Rightarrow> v))"

definition make_conversation_row :: "conversation_file \<Rightarrow> string \<Rightarrow> conversation_row" where
  "make_conversation_row f sid =
     \<lparr>c_session_id = sid,
      c_project_path = project_path_of (cf_parent_name f),
      c_conversation_file = cf_path f,
      c_root_message_uuid = m_uuid (root_message (cf_messages f)),
      c_leaf_message_uuid = (case cf_meta f of None \<Rightarrow> None | Some cm \<Rightarrow> cm_leafUuid cm),
      c_conversation_summary = conversation_summary_of (cf_meta f),
      c_first_message_at = m_timestamp (hd (cf_messages f)),
      c_last_message_at = m_timestamp (last (cf_messages f)),
      c_message_count = length (cf_messages f)\<rparr>"

definition depth_get :: "(string \<rightharpoonup> nat) \<Rightarrow> string \<Rightarrow> nat" where
  "depth_get depths u = (case depths u of None \<Rightarrow> 0 | Some d \<Rightarrow> d)"

text \<open>
  The row of one message; \<open>summarize_message\<close> stands for the external summarizer used when
  \<open>summarize\<close> is set.
\<close>

definition make_message_row ::
  "conversation_file \<Rightarrow> string \<Rightarrow> (string \<rightharpoonup> nat) \<Rightarrow> bool \<Rightarrow> (message \<Rightarrow> string) \<Rightarrow> message \<Rightarrow> message_row" where
  "make_message_row f sid depths summarize summarize_message m =
     \<lparr>r_message_uuid = m_uuid m,
      r_session_id = sid,
      r_parent_uuid = m_parent_uuid m,
      r_is_sidechain = m_is_sidechain m,
      r_depth = depth_get depths (m_uuid m),
      r_timestamp = m_timestamp m,
      r_message_type = m_message_type m,
      r_project_path = project_path_of (cf_parent_name f),
      r_conversation_file = cf_path f,
      r_summary = (if summarize then summarize_message m else take 150 (m_content m)),
      r_full_content = m_content m,
      r_is_summarized = default_is_summarized,
      r_summary_method = default_summary_method\<rparr>"

text \<open>
  The insertion loop: rows go in one by one, and the first refused insert raises, leaving
  the rows written so far in the open transaction.
\<close>

fun insert_messages :: "message_row list \<Rightarrow> message_row list \<Rightarrow> bool \<times> message_row list" where
  "insert_messages tbl [] = (True, tbl)"
| "insert_messages tbl (row # rows) =
     (case insert_message tbl row of
        None \<Rightarrow> (False, tbl)
      | Some tbl' \<Rightarrow> insert_messages tbl' rows)"

text \<open>
  \<open>index_conversation\<close> on the store as the indexer's connection sees it. The result is
  \<open>None\<close> when the depth computation does not return; otherwise the outcome and the store.
  With \<open>IntegrityError\<close> the exception leaves the function before the commit, and the
  store returned is the connection's view at that point.
\<close>

definition index_conversation ::
  "store \<Rightarrow> conversation_file \<Rightarrow> bool \<Rightarrow> (message \<Rightarrow> string) \<Rightarrow> (outcome \<times> store) option" where
  "index_conversation s f summarize summarize_message =
     (let msgs = cf_messages f in
      if msgs = [] then Some (NoMessages, s)
      else if \<not> truthy (m_session_id (hd msgs)) then Some (NoSessionId, s)
      else
        (let sid = the (m_session_id (hd msgs)) in
         case calculate_depth msgs of
           None \<Rightarrow> None
         | Some depths \<Rightarrow>
             (let existing = (sid \<in> c_session_id ` set (conversations s));
                  s1 = (if existing
                        then \<lparr>conversations = filter (\<lambda>c. c_session_id c \<noteq> sid) (conversations s),
                              messages = filter (\<lambda>r. r_session_id r \<noteq> sid) (messages s)\<rparr>
                        else s)
              in case insert_conversation (conversations s1) (make_conversation_row f sid) of
                   None \<Rightarrow> Some (IntegrityError, s1)
                 | Some convs \<Rightarrow>
                     (case insert_messages (messages s1)
                             (map (make_message_row f sid depths summarize summarize_message) msgs) of
                        (True, rows) \<Rightarrow> Some (Indexed, \<lparr>conversations = convs, messages = rows\<rparr>)
                      | (False, rows) \<Rightarrow>
                          Some (IntegrityError, \<lparr>conversations = convs, messages = rows\<rparr>)))))"

subsection \<open>Sample files\<close>

definition msgA :: message where
  "msgA = \<lparr>m_uuid = ''A'', m_parent_uuid = None, m_is_sidechain = False,
           m_timestamp = Some ''2025-01-01T10:00:00Z'', m_message_type = ''user'',
           m_content = ''Fix the bug in parser'', m_session_id = Some ''S1''\<rparr>"

definition msgB :: message where
  "msgB = \<lparr>m_uuid = ''B'', m_parent_uuid = Some ''A'', m_is_sidechain = False,
           m_timestamp = Some ''2025-01-01T10:00:05Z'', m_message_type = ''assistant'',
           m_content = ''Fixed it by adjusting regex'', m_session_id = Some ''S1''\<rparr>"

definition metaAB :: conv_meta where
  "metaAB = \<lparr>cm_leafUuid = Some ''B'', cm_summary = Some (Some ''Parser bug fix'')\<rparr>"

definition fileAB :: conversation_file where
  "fileAB = \<lparr>cf_path = ''/home/u/.claude/projects/-home-u-proj/s1.jsonl'',
             cf_parent_name = ''-home-u-proj'', cf_meta = Some metaAB,
             cf_messages = [msgA, msgB]\<rparr>"

definition no_summarizer :: "message \<Rightarrow> string" where
  "no_summarizer m = []"

definition fileNoMeta :: conversation_file where
  "fileNoMeta = \<lparr>cf_path = ''/home/u/.claude/projects/-home-u-proj/s1.jsonl'',
                 cf_parent_name = ''-home-u-proj'', cf_meta = None,
                 cf_messages = [msgA, msgB]\<rparr>"

definition fileNoSummary :: conversation_file where
  "fileNoSummary = \<lparr>cf_path = ''/home/u/.claude/projects/-home-u-proj/s1.jsonl'',
                    cf_parent_name = ''-home-u-proj'',
                    cf_meta = Some \<lparr>cm_leafUuid = Some ''B'', cm_summary = None\<rparr>,
                    cf_messages = [msgA, msgB]\<rparr>"

text \<open>A file whose first message carries no session id while the second does.\<close>

definition fileLateSid :: conversation_file where
  "fileLateSid = \<lparr>cf_path = ''/home/u/.claude/projects/-home-u-proj/s2.jsonl'',
                  cf_parent_name = ''-home-u-proj'', cf_meta = None,
                  cf_messages = [msgA\<lparr>m_session_id := None\<rparr>, msgB\<lparr>m_session_id := Some ''S2''\<rparr>]\<rparr>"

definition depthsAB :: "string \<rightharpoonup> nat" where
  "depthsAB = [''A'' \<mapsto> 0, ''B'' \<mapsto> 1]"

definition store_of :: "conversation_file \<Rightarrow> store" where
  "store_of f =
     \<lparr>conversations = [make_conversation_row f ''S1''],
      messages = map (make_message_row f ''S1'' depthsAB False no_summarizer) (cf_messages f)\<rparr>"

text \<open>An earlier state of session \<open>S1\<close> (one message \<open>Z\<close>), beside a row of session \<open>S0\<close>.\<close>

definition msgZ :: message where
  "msgZ = \<lparr>m_uuid = ''Z'', m_parent_uuid = None, m_is_sidechain = False,
           m_timestamp = Some ''2024-12-31T09:00:00Z'', m_message_type = ''user'',
           m_content = ''An earlier question'', m_session_id = Some ''S1''\<rparr>"

definition fileZ :: conversation_file where
  "fileZ = \<lparr>cf_path = ''/home/u/.claude/projects/-home-u-proj/s1.jsonl'',
            cf_parent_name = ''-home-u-proj'', cf_meta = None, cf_messages = [msgZ]\<rparr>"

definition storeOld :: store where
  "storeOld =
     \<lparr>conversations = [make_conversation_row fileZ ''S0'', make_conversation_row fileZ ''S1''],
      messages = [(make_message_row fileZ ''S0'' Map.empty False no_summarizer msgZ)\<lparr>r_message_uuid := ''Y''\<rparr>,
                  make_message_row fileZ ''S1'' Map.empty False no_summarizer msgZ]\<rparr>"

definition storeNew :: store where
  "storeNew =
     \<lparr>conversations = [make_conversation_row fileZ ''S0'', make_conversation_row fileAB ''S1''],
      messages = (make_message_row fileZ ''S0'' Map.empty False no_summarizer msgZ)\<lparr>r_message_uuid := ''Y''\<rparr>
                 # map (make_message_row fileAB ''S1'' depthsAB False no_summarizer) [msgA, msgB]\<rparr>"

subsection \<open>Store invariant and the specification's session rule\<close>

text \<open>Every message row belongs to a session that has a conversation row.\<close>

definition store_ok :: "store \<Rightarrow> bool" where
  "store_ok s = (\<forall>r \<in> set (messages s). r_session_id r \<in> c_session_id ` set (conversations s))"

text \<open>The store the insertions of \<open>index_conversation\<close> start from: the session's old rows
  are gone.\<close>

definition cleared :: "store \<Rightarrow> string \<Rightarrow> store" where
  "cleared s sid =
     (if sid \<in> c_session_id ` set (conversations s)
      then \<lparr>conversations = filter (\<lambda>c. c_session_id c \<noteq> sid) (conversations s),
            messages = filter (\<lambda>r. r_session_id r \<noteq> sid) (messages s)\<rparr>
      else s)"

text \<open>
  The specification's rule for the session identifier of a file: the one carried by the
  first message record that carries one.
\<close>

definition spec_session_id :: "message list \<Rightarrow> string option" where
  "spec_session_id msgs =
     (case find (\<lambda>m. truthy (m_session_id m)) msgs of None \<Rightarrow> None | Some m \<Rightarrow> m_session_id m)"

subsection \<open>The state of the depth traversal\<close>

text \<open>
  The depth each id has been given so far, whether recorded in \<open>depths\<close> or still waiting in
  the queue, and the invariant of the loop of \<open>calculate_depth\<close>: the ids in the queue are
  distinct, none is recorded yet, all are ids of messages; a parentless message has been
  given depth 0; any other message has been given its parent's recorded depth plus one, and
  nothing as long as its parent is not recorded.
\<close>

definition assigned :: "(string \<times> nat) list \<Rightarrow> (string \<rightharpoonup> nat) \<Rightarrow> (string \<rightharpoonup> nat)" where
  "assigned queue depths = depths ++ map_of queue"

definition bfs_inv :: "message list \<Rightarrow> (string \<times> nat) list \<Rightarrow> (string \<rightharpoonup> nat) \<Rightarrow> bool" where
  "bfs_inv msgs queue depths =
     (distinct (map fst queue)
      \<and> fst ` set queue \<inter> dom depths = {}
      \<and> fst ` set queue \<union> dom depths \<subseteq> m_uuid ` set msgs
      \<and> (\<forall>m \<in> set msgs. \<not> truthy (m_parent_uuid m) \<longrightarrow> assigned queue depths (m_uuid m) = Some 0)
      \<and> (\<forall>m \<in> set msgs. \<forall>p. m_parent_uuid m = Some p \<longrightarrow> p \<noteq> [] \<longrightarrow>
             assigned queue depths (m_uuid m) = map_option Suc (depths p)))"

text \<open>
  The law the recorded depths obey: only ids of messages have a depth; a parentless message
  has depth 0; any other message has its parent's depth plus one when the parent has a
  depth, and none otherwise.
\<close>

definition depth_law :: "message list \<Rightarrow> (string \<rightharpoonup> nat) \<Rightarrow> bool" where
  "depth_law msgs depths =
     (dom depths \<subseteq> m_uuid ` set msgs
      \<and> (\<forall>m \<in> set msgs. \<not> truthy (m_parent_uuid m) \<longrightarrow> depths (m_uuid m) = Some 0)
      \<and> (\<forall>m \<in> set msgs. \<forall>p. m_parent_uuid m = Some p \<longrightarrow> p \<noteq> [] \<longrightarrow>
             depths (m_uuid m) = map_option Suc (depths p)))"

subsection \<open>A file with a message whose parent is not in the file\<close>

definition msgP :: message where
  "msgP = \<lparr>m_uuid = ''P'', m_parent_uuid = Some ''X'', m_is_sidechain = False,
           m_timestamp = Some ''2025-01-02T10:00:00Z'', m_message_type = ''user'',
           m_content = ''Continue from the earlier session'', m_session_id = Some ''S1''\<rparr>"

definition msgC :: message where
  "msgC = \<lparr>m_uuid = ''C'', m_parent_uuid = Some ''P'', m_is_sidechain = False,
           m_timestamp = Some ''2025-01-02T10:00:05Z'', m_message_type = ''assistant'',
           m_content = ''Picking up where we left off'', m_session_id = Some ''S1''\<rparr>"

definition fileOrphan :: conversation_file where
  "fileOrphan = \<lparr>cf_path = ''/home/u/.claude/projects/-home-u-proj/s1.jsonl'',
                 cf_parent_name = ''-home-u-proj'', cf_meta = None,
                 cf_messages = [msgP, msgC]\<rparr>"

section \<open>Batch summarization (summarization.py, watcher.py)\<close>

text \<open>
  A JSON value as \<^verbatim>\<open>json.loads\<close> returns it. An object is the list of its members in
  the order of the text; a later member of the same name overrides an earlier one.
\<close>

datatype json =
    JNull
  | JBool bool
  | JNum real
  | JStr string
  | JArr "json list"
  | JObj "(string \<times> json) list"

text \<open>Truthiness of a value, and \<^verbatim>\<open>d.get(key)\<close> on an object, where a missing member
  gives \<^verbatim>\<open>None\<close>, as a null member does.\<close>

fun json_truthy :: "json \<Rightarrow> bool" where
  "json_truthy JNull = False"
| "json_truthy (JBool b) = b"
| "json_truthy (JNum x) = (x \<noteq> 0)"
| "json_truthy (JStr s) = (s \<noteq> [])"
| "json_truthy (JArr xs) = (xs \<noteq> [])"
| "json_truthy (JObj kvs) = (kvs \<noteq> [])"

definition member :: "(string \<times> json) list \<Rightarrow> string \<Rightarrow> json" where
  "member kvs key = (case map_of (rev kvs) key of None \<Rightarrow> JNull | Some v \<Rightarrow> v)"





definition set_summary :: "string \<Rightarrow> string \<Rightarrow> string \<Rightarrow> message_row \<Rightarrow> message_row" where
  "set_summary u summary method r =
     (if r_message_uuid r = u
      then r\<lparr>r_summary := summary, r_is_summarized := True, r_summary_method := Some method\<rparr>
      else r)"

text \<open>
  The text the store holds for a value bound to a statement. A string is bound as it is.
  What happens to a value of another type depends on the driver and on the column types
  of the schema, which is not among the sources: \<open>bind\<close> gives the text held, or \<open>None\<close>
  when the binding is refused.
\<close>

definition sql_text :: "(json \<Rightarrow> string option) \<Rightarrow> json \<Rightarrow> string option" where
  "sql_text bind v = (case v of JStr s \<Rightarrow> Some s | _ \<Rightarrow> bind v)"








subsection \<open>What an answer says about a message\<close>

text \<open>
  An entry names the id \<open>u\<close> when it is an object whose id and summary are both truthy and
  whose id is held by the store as \<open>u\<close>. \<open>named_summary\<close> is the summary text of the last
  entry of a list that names \<open>u\<close>. A call fails or is empty when it gives no summaries.
  A list of pairs is a list of objects whose id and summary are each a string or missing.
\<close>

fun names :: "(json \<Rightarrow> string option) \<Rightarrow> string \<Rightarrow> json \<Rightarrow> bool" where
  "names bind u (JObj kvs) =
     (json_truthy (member kvs ''uuid'') \<and> json_truthy (member kvs ''summary'')
      \<and> sql_text bind (member kvs ''uuid'') = Some u)"
| "names bind u _ = False"












subsection \<open>Sample summarizers and batch\<close>


definition entryA :: json where
  "entryA = JObj [(''uuid'', JStr ''A''), (''message_type'', JStr ''user''),
                  (''summary'', JStr ''Asks for a parser fix'')]"



definition no_bind :: "json \<Rightarrow> string option" where
  "no_bind v = None"


definition tblAB :: "message_row list" where
  "tblAB = messages (store_of fileAB)"


section \<open>Search (search.py)\<close>

text \<open>\<^verbatim>\<open>s.split()\<close>: the maximal runs of non-whitespace characters, scanned left to
  right with the run read so far in \<open>cur\<close>.\<close>

fun split_acc :: "string \<Rightarrow> string \<Rightarrow> string list" where
  "split_acc [] cur = (if cur = [] then [] else [cur])"
| "split_acc (c # cs) cur =
     (if py_isspace c then (if cur = [] then split_acc cs [] else cur # split_acc cs [])
      else split_acc cs (cur @ [c]))"

definition split_ws :: "string \<Rightarrow> string list" where
  "split_ws s = split_acc s []"

text \<open>\<^verbatim>\<open>sep.join(parts)\<close>.\<close>

fun join :: "string \<Rightarrow> string list \<Rightarrow> string" where
  "join sep [] = []"
| "join sep [x] = x"
| "join sep (x # y # ys) = x @ sep @ join sep (y # ys)"

definition fts_operators :: "string list" where
  "fts_operators = ['' AND '', '' OR '', '' NOT '', [CHR 0x22]]"

definition fts_query_of :: "string \<Rightarrow> string" where
  "fts_query_of query =
     (if \<not> list_ex (\<lambda>op. contains query op) fts_operators
      then (let terms = split_ws query in
            if length terms = 1 then hd terms @ ''*''
            else join '' '' (map (\<lambda>term. term @ ''*'') terms))
      else query)"

text \<open>Truthiness of an optional integer: \<^verbatim>\<open>None\<close> and zero are falsy.\<close>

fun truthy_int :: "int option \<Rightarrow> bool" where
  "truthy_int None = False"
| "truthy_int (Some n) = (n \<noteq> 0)"

text \<open>
  Modelled from the spec: the schema file, which creates the full-text table and keeps it
  in step with \<open>messages\<close>, is not among the sources. The specification gives the
  full-text table one row per message, holding the message id and the summary.
\<close>

definition message_summaries_fts :: "store \<Rightarrow> (string \<times> string) list" where
  "message_summaries_fts s = map (\<lambda>r. (r_message_uuid r, r_summary r)) (messages s)"

text \<open>\<^verbatim>\<open>messages m JOIN conversations c ON m.session_id = c.session_id\<close>.\<close>

definition joined_rows :: "store \<Rightarrow> (message_row \<times> conversation_row) list" where
  "joined_rows s =
     concat (map (\<lambda>m. map (\<lambda>c. (m, c))
                          (filter (\<lambda>c. c_session_id c = r_session_id m) (conversations s)))
                 (messages s))"

text \<open>\<^verbatim>\<open>m.timestamp >= cutoff\<close>: a NULL timestamp never passes.\<close>

definition timestamp_ge :: "string option \<Rightarrow> string \<Rightarrow> bool" where
  "timestamp_ge ts cutoff = (case ts of None \<Rightarrow> False | Some t \<Rightarrow> cutoff \<le> t)"

text \<open>\<^verbatim>\<open>LIMIT ?\<close>: a negative limit is no limit. The store takes integers of 64 bits:
  binding any other raises.\<close>

definition sql_limit :: "int \<Rightarrow> 'a list \<Rightarrow> 'a list" where
  "sql_limit limit rows = (if limit < 0 then rows else take (nat limit) rows)"

definition sql_integer :: "int \<Rightarrow> bool" where
  "sql_integer n = (- (2 ^ 63) \<le> n \<and> n < 2 ^ 63)"

text \<open>
  The rows the \<^verbatim>\<open>WHERE\<close> clause keeps: those whose message id the summary index
  matches, then the cutoff when \<open>days_back\<close> is truthy, then the project path when it is
  truthy.
\<close>

definition matching_rows ::
  "(string \<Rightarrow> bool) \<Rightarrow> string option \<Rightarrow> store \<Rightarrow> string option
     \<Rightarrow> (message_row \<times> conversation_row) list" where
  "matching_rows matches cutoff s project_path =
     (let hits = map fst (filter (\<lambda>(u, summary). matches summary) (message_summaries_fts s));
          rows1 = filter (\<lambda>(m, c). r_message_uuid m \<in> set hits) (joined_rows s);
          rows2 = (case cutoff of
                     Some cutoff_text \<Rightarrow> filter (\<lambda>(m, c). timestamp_ge (r_timestamp m) cutoff_text) rows1
                   | None \<Rightarrow> rows1);
          rows3 = (if truthy project_path
                   then filter (\<lambda>(m, c). r_project_path m = the project_path) rows2
                   else rows2)
      in rows3)"

text \<open>\<^verbatim>\<open>ORDER BY m.timestamp DESC\<close>. The store does not fix the order of rows with
  equal timestamps; here they stay in the order of the scan.\<close>

definition order_by_timestamp_desc ::
  "(message_row \<times> conversation_row) list \<Rightarrow> (message_row \<times> conversation_row) list" where
  "order_by_timestamp_desc rows = rev (sort_key (\<lambda>(m, c). r_timestamp m) (rev rows))"

text \<open>
  \<open>search_conversations\<close>. The full-text engine is the parameter \<open>fts\<close>: it turns a query
  string into a predicate on the indexed text, or refuses the query (\<open>None\<close>, the
  operational error of the engine, raised when the statement runs). \<open>cutoff_of days\<close> is
  the ISO text of the current time minus \<open>days\<close> days, or \<open>None\<close> when that date
  arithmetic overflows; it is computed before the statement is executed, and the
  parameters are bound before the statement runs. The result is the exception raised, or
  the list of joined rows, from which the \<^verbatim>\<open>SELECT\<close> list takes its columns.
\<close>

definition search_conversations ::
  "(string \<Rightarrow> (string \<Rightarrow> bool) option) \<Rightarrow> (int \<Rightarrow> string option) \<Rightarrow> store
     \<Rightarrow> string \<Rightarrow> int option \<Rightarrow> int \<Rightarrow> string option
     \<Rightarrow> py_error + (message_row \<times> conversation_row) list" where
  "search_conversations fts cutoff_of s query days_back limit project_path =
     (let fts_query = fts_query_of query in
      if truthy_int days_back \<and> cutoff_of (the days_back) = None then Inl OverflowError
      else
        (let cutoff = (if truthy_int days_back then cutoff_of (the days_back) else None) in
         if \<not> sql_integer limit then Inl OverflowError
         else (case fts fts_query of
                 None \<Rightarrow> Inl OperationalError
               | Some matches \<Rightarrow>
                   Inr (sql_limit limit
                          (order_by_timestamp_desc
                             (matching_rows matches cutoff s project_path))))))"

text \<open>
  The condition on a joined row, in the specification's terms: the summary index matches its
  message id, its timestamp is not before the cutoff when \<open>days_back\<close> is given, and its
  project path is the one asked for when one is given.
\<close>

definition row_matches ::
  "(string \<Rightarrow> bool) \<Rightarrow> (int \<Rightarrow> string option) \<Rightarrow> store \<Rightarrow> int option \<Rightarrow> string option
     \<Rightarrow> message_row \<times> conversation_row \<Rightarrow> bool" where
  "row_matches matches cutoff_of s days_back project_path mc =
     ((\<exists>r \<in> set (messages s). r_message_uuid r = r_message_uuid (fst mc) \<and> matches (r_summary r))
      \<and> (\<forall>d. days_back = Some d \<longrightarrow>
           (\<exists>lim t. cutoff_of d = Some lim \<and> r_timestamp (fst mc) = Some t \<and> lim \<le> t))
      \<and> (\<forall>p. project_path = Some p \<longrightarrow> r_project_path (fst mc) = p))"

text \<open>
  The arguments on which the specification's reading of the optional filters and of the
  limit is the code's: the limit is a count the store can take, a given \<open>days_back\<close> is
  not zero and has a cutoff date, and a given project path is not empty.
\<close>

definition plain_arguments :: "(int \<Rightarrow> string option) \<Rightarrow> int option \<Rightarrow> int \<Rightarrow> string option \<Rightarrow> bool" where
  "plain_arguments cutoff_of days_back limit project_path =
     (0 \<le> limit \<and> limit < 2 ^ 63
      \<and> (case days_back of None \<Rightarrow> True | Some d \<Rightarrow> d \<noteq> 0 \<and> cutoff_of d \<noteq> None)
      \<and> project_path \<noteq> Some [])"

subsection \<open>The rewriting as the specification words it, and a sample engine\<close>

text \<open>The specification's rewriting, applied to every query string.\<close>

definition spec_fts_query :: "string \<Rightarrow> string" where
  "spec_fts_query query =
     (let terms = split_ws query in
      if length terms = 1 then hd terms @ ''*''
      else join '' '' (map (\<lambda>term. term @ ''*'') terms))"

text \<open>
  A small engine for examples: every term of the query, its trailing wildcard removed, must
  be a prefix of some word of the indexed text.
\<close>

definition sample_fts :: "string \<Rightarrow> (string \<Rightarrow> bool) option" where
  "sample_fts q =
     (if q = [] then None
      else Some (\<lambda>text. list_all (\<lambda>term. list_ex (\<lambda>word. startswith word (takeWhile (\<lambda>c. c \<noteq> CHR ''*'') term))
                                              (split_ws text))
                            (split_ws q)))"

definition sample_cutoff :: "int \<Rightarrow> string option" where
  "sample_cutoff days = (if \<bar>days\<bar> < 700000 then Some ''2025-01-01T00:00:00'' else None)"

section \<open>The watch coordinator (watcher.py)\<close>

















subsection \<open>A sample burst\<close>





section \<open>Properties of the summarization gate\<close>

text \<open>
  C3 (as the specification words it) fails: a 145-character summary that is neither
  ellipsis-terminated nor a tool marker, with the full content equal to the summary, is a
  placeholder for the specification (the content begins with the summary) and is not one
  for \<open>is_truncated_summary\<close>, which compares lengths only.
\<close>

theorem is_truncated_summary_prefix_counterexample:
  "\<not> (is_truncated_summary (replicate 145 (CHR ''a'')) (replicate 145 (CHR ''a''))
      \<longleftrightarrow> spec_is_placeholder (replicate 145 (CHR ''a'')) (replicate 145 (CHR ''a'')))"
  by code_simp

text \<open>
  C3 (amended): a summary is classified as a mechanically-truncated placeholder if and only
  if it ends with an ellipsis; or its length is between 145 and 150 characters and the full
  content is strictly longer than the summary; or it starts with the tool marker tag; or it
  is shorter than 20 characters (which includes the empty summary).
\<close>

theorem is_truncated_summary_iff:
  "is_truncated_summary s c \<longleftrightarrow>
     (endswith s ''...''
      \<or> (145 \<le> length s \<and> length s \<le> 150 \<and> length c > length s)
      \<or> startswith s ''[Tool''
      \<or> length s < 20)"
  by (auto simp: is_truncated_summary_def)

lemma m49_not_noise: "\<not> is_tool_noise m49"
  by code_simp

lemma m50_not_noise: "\<not> is_tool_noise m50"
  by code_simp

lemma mtool_noise: "is_tool_noise mtool"
  by code_simp

text \<open>
  C7: the tool-noise check comes first (a message classified as tool noise gets
  \<open>tool_noise\<close> whatever its length); for a message that is not tool noise, content of
  length 49 classifies \<open>too_short\<close> and content of length 50 does not.
\<close>

theorem needs_summarization_boundary:
  "(is_tool_noise m \<longrightarrow> needs_summarization m = (False, ''tool_noise''))
   \<and> (\<not> is_tool_noise m \<longrightarrow>
        (length (fm_content m) = 49 \<longrightarrow> needs_summarization m = (False, ''too_short''))
        \<and> (length (fm_content m) = 50 \<longrightarrow> snd (needs_summarization m) \<noteq> ''too_short''))"
  by (simp add: needs_summarization_def Let_def)

theorem needs_summarization_boundary_witness:
  "\<not> is_tool_noise m49 \<and> length (fm_content m49) = 49
   \<and> needs_summarization m49 = (False, ''too_short'')
   \<and> \<not> is_tool_noise m50 \<and> length (fm_content m50) = 50
   \<and> snd (needs_summarization m50) \<noteq> ''too_short''
   \<and> is_tool_noise mtool \<and> needs_summarization mtool = (False, ''tool_noise'')"
  using needs_summarization_boundary [of m49] needs_summarization_boundary [of m50]
    needs_summarization_boundary [of mtool] m49_not_noise m50_not_noise mtool_noise
  by (simp add: m49_def m50_def mtool_def)

section \<open>Properties of the indexer\<close>

lemma insert_messages_prefix:
  "insert_messages tbl rows = (b, tbl') \<Longrightarrow>
     \<exists>pre suf. tbl' = tbl @ pre \<and> rows = pre @ suf \<and> (b \<longrightarrow> suf = [])"
proof (induction rows arbitrary: tbl)
  case Nil
  then show ?case by auto
next
  case (Cons row rows)
  show ?case
  proof (cases "insert_message tbl row")
    case None
    with Cons.prems show ?thesis by auto
  next
    case (Some t)
    then have t: "t = tbl @ [row]"
      by (auto simp: insert_message_def split: if_splits)
    from Cons.prems Some have "insert_messages t rows = (b, tbl')" by simp
    from Cons.IH[OF this] obtain pre suf where
      "tbl' = t @ pre" "rows = pre @ suf" "b \<longrightarrow> suf = []" by blast
    with t have "tbl' = tbl @ (row # pre) \<and> row # rows = (row # pre) @ suf \<and> (b \<longrightarrow> suf = [])"
      by simp
    then show ?thesis by blast
  qed
qed

lemma filter_insert_messages:
  assumes "insert_messages tbl rows = (b, tbl')"
    and "\<forall>r \<in> set rows. r_session_id r = sid"
    and "\<forall>r \<in> set tbl. r_session_id r \<noteq> sid"
  shows "filter (\<lambda>r. r_session_id r \<noteq> sid) tbl' = tbl"
proof -
  from insert_messages_prefix[OF assms(1)] obtain pre suf where
    ps: "tbl' = tbl @ pre" "rows = pre @ suf" by blast
  with assms(2) have "\<forall>r \<in> set pre. r_session_id r = sid" by auto
  then have "filter (\<lambda>r. r_session_id r \<noteq> sid) pre = []" by (simp add: filter_empty_conv)
  moreover from assms(3) have "filter (\<lambda>r. r_session_id r \<noteq> sid) tbl = tbl"
    by (simp add: filter_id_conv)
  ultimately show ?thesis using ps by simp
qed

lemma make_message_row_session:
  "\<forall>r \<in> set (map (make_message_row f sid depths b e) msgs). r_session_id r = sid"
  by (simp add: make_message_row_def)

lemma cleared_conversations:
  "filter (\<lambda>c. c_session_id c \<noteq> sid) (conversations s) = conversations (cleared s sid)"
proof (cases "sid \<in> c_session_id ` set (conversations s)")
  case True
  then show ?thesis by (simp add: cleared_def)
next
  case False
  then have "\<forall>c \<in> set (conversations s). c_session_id c \<noteq> sid" by auto
  then have "filter (\<lambda>c. c_session_id c \<noteq> sid) (conversations s) = conversations s"
    by (simp add: filter_id_conv)
  with False show ?thesis by (simp add: cleared_def)
qed

lemma cleared_messages:
  assumes "store_ok s"
  shows "filter (\<lambda>r. r_session_id r \<noteq> sid) (messages s) = messages (cleared s sid)"
proof (cases "sid \<in> c_session_id ` set (conversations s)")
  case True
  then show ?thesis by (simp add: cleared_def)
next
  case False
  with assms have "\<forall>r \<in> set (messages s). r_session_id r \<noteq> sid"
    by (auto simp: store_ok_def)
  then have "filter (\<lambda>r. r_session_id r \<noteq> sid) (messages s) = messages s"
    by (simp add: filter_id_conv)
  with False show ?thesis by (simp add: cleared_def)
qed

lemma cleared_no_session:
  "sid \<notin> c_session_id ` set (conversations (cleared s sid))"
  by (auto simp: cleared_def)

lemma cleared_no_rows:
  "store_ok s \<Longrightarrow> \<forall>r \<in> set (messages (cleared s sid)). r_session_id r \<noteq> sid"
  by (auto simp: cleared_def store_ok_def)

lemma index_conversation_unfold:
  assumes "cf_messages f \<noteq> []" "m_session_id (hd (cf_messages f)) = Some sid" "sid \<noteq> []"
    and "calculate_depth (cf_messages f) = Some depths"
  shows "index_conversation s f b e =
     (case insert_messages (messages (cleared s sid))
             (map (make_message_row f sid depths b e) (cf_messages f)) of
        (ok, rows) \<Rightarrow>
          Some (if ok then Indexed else IntegrityError,
                \<lparr>conversations = conversations (cleared s sid) @ [make_conversation_row f sid],
                 messages = rows\<rparr>))"
proof -
  have sid_row: "c_session_id (make_conversation_row f sid) = sid"
    by (simp add: make_conversation_row_def)
  have "insert_conversation (conversations (cleared s sid)) (make_conversation_row f sid)
        = Some (conversations (cleared s sid) @ [make_conversation_row f sid])"
    using cleared_no_session[of sid s] by (simp add: insert_conversation_def sid_row)
  moreover have "index_conversation s f b e =
     (case insert_conversation (conversations (cleared s sid)) (make_conversation_row f sid) of
        None \<Rightarrow> Some (IntegrityError, cleared s sid)
      | Some convs \<Rightarrow>
          (case insert_messages (messages (cleared s sid))
                  (map (make_message_row f sid depths b e) (cf_messages f)) of
             (True, rows) \<Rightarrow> Some (Indexed, \<lparr>conversations = convs, messages = rows\<rparr>)
           | (False, rows) \<Rightarrow> Some (IntegrityError, \<lparr>conversations = convs, messages = rows\<rparr>)))"
    using assms
    by (cases "sid \<in> c_session_id ` set (conversations s)")
       (simp_all add: index_conversation_def Let_def cleared_def
          split: option.splits prod.splits bool.splits)
  ultimately show ?thesis
    by (simp split: prod.splits bool.splits)
qed

lemma index_conversation_cases:
  assumes "index_conversation s f b e = Some (out, s1)"
  shows "(out = NoMessages \<and> s1 = s \<and> cf_messages f = [])
       \<or> (out = NoSessionId \<and> s1 = s \<and> cf_messages f \<noteq> [] \<and> \<not> truthy (m_session_id (hd (cf_messages f))))
       \<or> (\<exists>sid depths. cf_messages f \<noteq> [] \<and> m_session_id (hd (cf_messages f)) = Some sid \<and> sid \<noteq> []
            \<and> calculate_depth (cf_messages f) = Some depths \<and> out \<in> {Indexed, IntegrityError})"
proof (cases "cf_messages f = []")
  case True
  with assms show ?thesis by (simp add: index_conversation_def)
next
  case ne: False
  show ?thesis
  proof (cases "truthy (m_session_id (hd (cf_messages f)))")
    case False
    with ne assms show ?thesis by (simp add: index_conversation_def)
  next
    case True
    then obtain sid where sid: "m_session_id (hd (cf_messages f)) = Some sid" "sid \<noteq> []"
      by (cases "m_session_id (hd (cf_messages f))") auto
    from assms ne True obtain depths where d: "calculate_depth (cf_messages f) = Some depths"
      by (cases "calculate_depth (cf_messages f)") (auto simp: index_conversation_def Let_def)
    from assms index_conversation_unfold[OF ne sid d, of s b e]
    have "out \<in> {Indexed, IntegrityError}"
      by (auto split: prod.splits if_splits)
    with ne sid d show ?thesis by blast
  qed
qed

lemma index_conversation_result:
  assumes "index_conversation s f b e = Some (out, s1)" "out \<noteq> NoMessages" "out \<noteq> NoSessionId"
  obtains sid depths okb tbl where
    "cf_messages f \<noteq> []" "m_session_id (hd (cf_messages f)) = Some sid" "sid \<noteq> []"
    "calculate_depth (cf_messages f) = Some depths"
    "insert_messages (messages (cleared s sid))
       (map (make_message_row f sid depths b e) (cf_messages f)) = (okb, tbl)"
    "out = (if okb then Indexed else IntegrityError)"
    "s1 = \<lparr>conversations = conversations (cleared s sid) @ [make_conversation_row f sid],
           messages = tbl\<rparr>"
proof -
  from index_conversation_cases[OF assms(1)] assms(2,3)
  obtain sid depths where c: "cf_messages f \<noteq> []" "m_session_id (hd (cf_messages f)) = Some sid"
    "sid \<noteq> []" "calculate_depth (cf_messages f) = Some depths"
    by blast
  obtain okb tbl where ins: "insert_messages (messages (cleared s sid))
       (map (make_message_row f sid depths b e) (cf_messages f)) = (okb, tbl)"
    by (cases "insert_messages (messages (cleared s sid))
       (map (make_message_row f sid depths b e) (cf_messages f))")
  from assms(1) index_conversation_unfold[OF c, of s b e] ins
  have "out = (if okb then Indexed else IntegrityError)"
    "s1 = \<lparr>conversations = conversations (cleared s sid) @ [make_conversation_row f sid],
           messages = tbl\<rparr>"
    by auto
  with c ins that show thesis by blast
qed

lemma store_ok_empty: "store_ok empty_store"
  by (simp add: store_ok_def empty_store_def)

lemma store_ok_cleared: "store_ok s \<Longrightarrow> store_ok (cleared s sid)"
  by (auto simp: store_ok_def cleared_def)

lemma store_ok_index_conversation:
  assumes "store_ok s" "index_conversation s f b e = Some (out, s1)"
  shows "store_ok s1"
proof (cases "out = NoMessages \<or> out = NoSessionId")
  case True
  with index_conversation_cases[OF assms(2)] assms(1) show ?thesis by auto
next
  case False
  then have "out \<noteq> NoMessages" "out \<noteq> NoSessionId" by auto
  from index_conversation_result[OF assms(2) this]
  obtain sid depths okb tbl where
    ne: "cf_messages f \<noteq> []" and sid: "m_session_id (hd (cf_messages f)) = Some sid"
    and sne: "sid \<noteq> []" and cd: "calculate_depth (cf_messages f) = Some depths"
    and ins: "insert_messages (messages (cleared s sid))
       (map (make_message_row f sid depths b e) (cf_messages f)) = (okb, tbl)"
    and out: "out = (if okb then Indexed else IntegrityError)"
    and s1: "s1 = \<lparr>conversations = conversations (cleared s sid) @ [make_conversation_row f sid],
           messages = tbl\<rparr>"
    by blast
  from insert_messages_prefix[OF ins] obtain pre suf where
    ps: "tbl = messages (cleared s sid) @ pre"
      "map (make_message_row f sid depths b e) (cf_messages f) = pre @ suf"
    by blast
  have "\<forall>r \<in> set pre. r_session_id r = sid"
    using make_message_row_session[of f sid depths b e "cf_messages f"] ps(2) by auto
  moreover have "c_session_id (make_conversation_row f sid) = sid"
    by (simp add: make_conversation_row_def)
  ultimately show ?thesis
    using store_ok_cleared[OF assms(1), of sid] by (auto simp: store_ok_def s1 ps(1))
qed

lemma index_fileAB:
  "index_conversation empty_store fileAB False no_summarizer = Some (Indexed, store_of fileAB)"
  by code_simp

lemma index_fileNoMeta:
  "index_conversation empty_store fileNoMeta False no_summarizer = Some (Indexed, store_of fileNoMeta)"
  by code_simp

lemma index_fileNoSummary:
  "index_conversation empty_store fileNoSummary False no_summarizer
     = Some (Indexed, store_of fileNoSummary)"
  by code_simp

lemma index_storeOld:
  "index_conversation storeOld fileAB False no_summarizer = Some (Indexed, storeNew)"
  by code_simp

lemma store_ok_storeOld: "store_ok storeOld"
  by code_simp

text \<open>
  C1: indexing the same file twice in succession, without AI summarization, yields the
  same store as indexing it once: the second call returns the outcome and the store of the
  first. The replace is full: after a successful call the rows of the file's session are
  exactly the rows of the file's messages, its conversation row is the new one, and the
  rows of other sessions are untouched. The store is one in which every message row
  belongs to a session that has a conversation row, which \<open>index_conversation\<close> maintains.
\<close>

theorem index_conversation_idempotent:
  assumes ok: "store_ok s"
    and first: "index_conversation s f False e = Some (out, s1)"
  shows "index_conversation s1 f False e' = Some (out, s1)
       \<and> store_ok s1
       \<and> (out = Indexed \<longrightarrow>
            (\<exists>sid. m_session_id (hd (cf_messages f)) = Some sid
               \<and> map r_message_uuid (filter (\<lambda>r. r_session_id r = sid) (messages s1))
                   = map m_uuid (cf_messages f)
               \<and> map r_full_content (filter (\<lambda>r. r_session_id r = sid) (messages s1))
                   = map m_content (cf_messages f)
               \<and> filter (\<lambda>c. c_session_id c = sid) (conversations s1)
                   = [make_conversation_row f sid]
               \<and> filter (\<lambda>r. r_session_id r \<noteq> sid) (messages s1)
                   = filter (\<lambda>r. r_session_id r \<noteq> sid) (messages s)))"
proof (intro conjI)
  show "store_ok s1"
    using store_ok_index_conversation[OF ok first] .
next
  from index_conversation_cases[OF first]
  consider (a) "out = NoMessages" "s1 = s" "cf_messages f = []"
    | (b) "out = NoSessionId" "s1 = s" "cf_messages f \<noteq> []"
        "\<not> truthy (m_session_id (hd (cf_messages f)))"
    | (c) "out \<noteq> NoMessages" "out \<noteq> NoSessionId"
    by blast
  then show "index_conversation s1 f False e' = Some (out, s1)"
  proof cases
    case a
    then show ?thesis by (simp add: index_conversation_def)
  next
    case b
    then show ?thesis by (simp add: index_conversation_def)
  next
    case c
    from index_conversation_result[OF first c]
    obtain sid depths okb tbl where
      c': "cf_messages f \<noteq> []" "m_session_id (hd (cf_messages f)) = Some sid" "sid \<noteq> []"
        "calculate_depth (cf_messages f) = Some depths"
      and ins: "insert_messages (messages (cleared s sid))
         (map (make_message_row f sid depths False e) (cf_messages f)) = (okb, tbl)"
      and out: "out = (if okb then Indexed else IntegrityError)"
      and s1: "s1 = \<lparr>conversations = conversations (cleared s sid) @ [make_conversation_row f sid],
             messages = tbl\<rparr>"
      by blast
    let ?rows = "\<lambda>e. map (make_message_row f sid depths False e) (cf_messages f)"
    have rows_eq: "?rows e' = ?rows e" by (simp add: make_message_row_def)
    have ex: "sid \<in> c_session_id ` set (conversations s1)"
      by (simp add: s1 make_conversation_row_def)
    have "filter (\<lambda>c. c_session_id c \<noteq> sid) (conversations (cleared s sid))
            = conversations (cleared s sid)"
      using cleared_no_session[of sid s] by (auto simp: filter_id_conv)
    then have c1: "conversations (cleared s1 sid) = conversations (cleared s sid)"
      using ex by (simp add: cleared_def s1 make_conversation_row_def)
    have "filter (\<lambda>r. r_session_id r \<noteq> sid) tbl = messages (cleared s sid)"
      using filter_insert_messages[OF ins make_message_row_session cleared_no_rows[OF ok]] .
    then have m1: "messages (cleared s1 sid) = messages (cleared s sid)"
      using ex by (simp add: cleared_def s1)
    have "index_conversation s1 f False e' =
       (case insert_messages (messages (cleared s sid)) (?rows e) of
          (ok, rows) \<Rightarrow>
            Some (if ok then Indexed else IntegrityError,
                  \<lparr>conversations = conversations (cleared s sid) @ [make_conversation_row f sid],
                   messages = rows\<rparr>))"
      using index_conversation_unfold[OF c', of s1 False e'] by (simp only: c1 m1 rows_eq)
    also have "\<dots> = Some (out, s1)"
      using ins by (simp add: out s1)
    finally show ?thesis .
  qed
next
  show "out = Indexed \<longrightarrow>
            (\<exists>sid. m_session_id (hd (cf_messages f)) = Some sid
               \<and> map r_message_uuid (filter (\<lambda>r. r_session_id r = sid) (messages s1))
                   = map m_uuid (cf_messages f)
               \<and> map r_full_content (filter (\<lambda>r. r_session_id r = sid) (messages s1))
                   = map m_content (cf_messages f)
               \<and> filter (\<lambda>c. c_session_id c = sid) (conversations s1)
                   = [make_conversation_row f sid]
               \<and> filter (\<lambda>r. r_session_id r \<noteq> sid) (messages s1)
                   = filter (\<lambda>r. r_session_id r \<noteq> sid) (messages s))"
  proof
    assume ind: "out = Indexed"
    then have "out \<noteq> NoMessages" "out \<noteq> NoSessionId" by auto
    from index_conversation_result[OF first this]
    obtain sid depths okb tbl where
      ne: "cf_messages f \<noteq> []" and sid: "m_session_id (hd (cf_messages f)) = Some sid"
      and sne: "sid \<noteq> []" and cd: "calculate_depth (cf_messages f) = Some depths"
      and ins: "insert_messages (messages (cleared s sid))
         (map (make_message_row f sid depths False e) (cf_messages f)) = (okb, tbl)"
      and out: "out = (if okb then Indexed else IntegrityError)"
      and s1: "s1 = \<lparr>conversations = conversations (cleared s sid) @ [make_conversation_row f sid],
             messages = tbl\<rparr>"
      by blast
    let ?rows = "map (make_message_row f sid depths False e) (cf_messages f)"
    from ind out have okb by (auto split: if_splits)
    with insert_messages_prefix[OF ins] have tbl: "tbl = messages (cleared s sid) @ ?rows"
      by auto
    have old_none: "filter (\<lambda>r. r_session_id r = sid) (messages (cleared s sid)) = []"
      using cleared_no_rows[OF ok, of sid] by (auto simp: filter_empty_conv)
    have new_all: "filter (\<lambda>r. r_session_id r = sid) ?rows = ?rows"
      using make_message_row_session[of f sid depths False e "cf_messages f"]
      by (simp only: filter_id_conv)
    have mine: "filter (\<lambda>r. r_session_id r = sid) (messages s1) = ?rows"
      by (simp only: s1 tbl store.simps filter_append old_none new_all append_Nil)
    have u: "map r_message_uuid ?rows = map m_uuid (cf_messages f)"
      by (simp add: make_message_row_def)
    have ct: "map r_full_content ?rows = map m_content (cf_messages f)"
      by (simp add: make_message_row_def)
    have cv: "filter (\<lambda>c. c_session_id c = sid) (conversations s1) = [make_conversation_row f sid]"
      using cleared_no_session[of sid s]
      by (auto simp: s1 make_conversation_row_def filter_empty_conv)
    have "filter (\<lambda>r. r_session_id r \<noteq> sid) tbl = messages (cleared s sid)"
      using filter_insert_messages[OF ins make_message_row_session cleared_no_rows[OF ok]] .
    then have others: "filter (\<lambda>r. r_session_id r \<noteq> sid) (messages s1)
        = filter (\<lambda>r. r_session_id r \<noteq> sid) (messages s)"
      using cleared_messages[OF ok, of sid] by (simp add: s1)
    from sid mine u ct cv others show "\<exists>sid. m_session_id (hd (cf_messages f)) = Some sid
               \<and> map r_message_uuid (filter (\<lambda>r. r_session_id r = sid) (messages s1))
                   = map m_uuid (cf_messages f)
               \<and> map r_full_content (filter (\<lambda>r. r_session_id r = sid) (messages s1))
                   = map m_content (cf_messages f)
               \<and> filter (\<lambda>c. c_session_id c = sid) (conversations s1)
                   = [make_conversation_row f sid]
               \<and> filter (\<lambda>r. r_session_id r \<noteq> sid) (messages s1)
                   = filter (\<lambda>r. r_session_id r \<noteq> sid) (messages s)"
      by (intro exI[of _ sid]) simp
  qed
qed

theorem index_conversation_idempotent_witness:
  "store_ok storeOld
   \<and> index_conversation storeOld fileAB False no_summarizer = Some (Indexed, storeNew)
   \<and> index_conversation storeNew fileAB False no_summarizer = Some (Indexed, storeNew)
   \<and> store_ok storeNew"
  using index_conversation_idempotent [OF store_ok_storeOld index_storeOld, of no_summarizer]
    store_ok_storeOld index_storeOld
  by simp

text \<open>
  C4 (as stated) fails: a file whose parse produced no metadata record is indexed with a
  NULL conversation summary, not with the placeholder string.
\<close>

theorem conversation_summary_absent_meta_counterexample:
  "cf_meta fileNoMeta = None
   \<and> index_conversation empty_store fileNoMeta False no_summarizer
       = Some (Indexed, store_of fileNoMeta)
   \<and> map c_conversation_summary (conversations (store_of fileNoMeta)) = [None]
   \<and> map c_conversation_summary (conversations (store_of fileNoMeta))
       \<noteq> [Some ''Untitled conversation'']"
  by code_simp

text \<open>
  C4 (amended): when \<open>index_conversation\<close> indexes a file, the session has exactly one
  conversation row, and its summary is NULL when the parse produced no metadata record,
  the fixed placeholder string when the metadata record has no summary field, and the
  header's summary value otherwise.
\<close>

theorem conversation_summary_default:
  assumes "index_conversation s f b e = Some (Indexed, s1)"
  shows "\<exists>sid row. m_session_id (hd (cf_messages f)) = Some sid
           \<and> filter (\<lambda>c. c_session_id c = sid) (conversations s1) = [row]
           \<and> (cf_meta f = None \<longrightarrow> c_conversation_summary row = None)
           \<and> (\<forall>cm. cf_meta f = Some cm \<longrightarrow> cm_summary cm = None \<longrightarrow>
                  c_conversation_summary row = Some ''Untitled conversation'')
           \<and> (\<forall>cm v. cf_meta f = Some cm \<longrightarrow> cm_summary cm = Some v \<longrightarrow>
                  c_conversation_summary row = v)"
proof -
  have "Indexed \<noteq> NoMessages" "Indexed \<noteq> NoSessionId" by simp_all
  from index_conversation_result[OF assms this]
  obtain sid depths okb tbl where
    ne: "cf_messages f \<noteq> []" and sid: "m_session_id (hd (cf_messages f)) = Some sid"
    and sne: "sid \<noteq> []" and cd: "calculate_depth (cf_messages f) = Some depths"
    and ins: "insert_messages (messages (cleared s sid))
       (map (make_message_row f sid depths b e) (cf_messages f)) = (okb, tbl)"
    and out: "Indexed = (if okb then Indexed else IntegrityError)"
    and s1: "s1 = \<lparr>conversations = conversations (cleared s sid) @ [make_conversation_row f sid],
           messages = tbl\<rparr>"
    by blast
  let ?row = "make_conversation_row f sid"
  have cv: "filter (\<lambda>c. c_session_id c = sid) (conversations s1) = [?row]"
    using cleared_no_session[of sid s]
    by (auto simp: s1 make_conversation_row_def filter_empty_conv)
  have sm: "c_conversation_summary ?row = conversation_summary_of (cf_meta f)"
    by (simp add: make_conversation_row_def)
  show ?thesis
  proof (intro exI[of _ sid] exI[of _ ?row] conjI allI impI)
    show "m_session_id (hd (cf_messages f)) = Some sid" by (fact sid)
    show "filter (\<lambda>c. c_session_id c = sid) (conversations s1) = [?row]" by (fact cv)
    show "c_conversation_summary ?row = None" if "cf_meta f = None"
      using that by (simp only: sm conversation_summary_of_def option.case)
    show "c_conversation_summary ?row = Some ''Untitled conversation''"
      if "cf_meta f = Some cm" "cm_summary cm = None" for cm
      using that by (simp only: sm conversation_summary_of_def option.case)
    show "c_conversation_summary ?row = v"
      if "cf_meta f = Some cm" "cm_summary cm = Some v" for cm v
      using that by (simp only: sm conversation_summary_of_def option.case)
  qed
qed

theorem conversation_summary_default_witness:
  "(\<exists>sid row. m_session_id (hd (cf_messages fileNoMeta)) = Some sid
      \<and> filter (\<lambda>c. c_session_id c = sid) (conversations (store_of fileNoMeta)) = [row]
      \<and> c_conversation_summary row = None)
   \<and> (\<exists>sid row. m_session_id (hd (cf_messages fileNoSummary)) = Some sid
      \<and> filter (\<lambda>c. c_session_id c = sid) (conversations (store_of fileNoSummary)) = [row]
      \<and> c_conversation_summary row = Some ''Untitled conversation'')
   \<and> (\<exists>sid row. m_session_id (hd (cf_messages fileAB)) = Some sid
      \<and> filter (\<lambda>c. c_session_id c = sid) (conversations (store_of fileAB)) = [row]
      \<and> c_conversation_summary row = Some ''Parser bug fix'')"
proof (intro conjI)
  have m: "cf_meta fileNoMeta = None" by (simp add: fileNoMeta_def)
  show "\<exists>sid row. m_session_id (hd (cf_messages fileNoMeta)) = Some sid
      \<and> filter (\<lambda>c. c_session_id c = sid) (conversations (store_of fileNoMeta)) = [row]
      \<and> c_conversation_summary row = None"
    using conversation_summary_default [OF index_fileNoMeta]
    by (elim exE conjE) (auto simp: m)
next
  have m: "cf_meta fileNoSummary = Some \<lparr>cm_leafUuid = Some ''B'', cm_summary = None\<rparr>"
    "cm_summary \<lparr>cm_leafUuid = Some ''B'', cm_summary = None\<rparr> = None"
    by (simp_all add: fileNoSummary_def)
  show "\<exists>sid row. m_session_id (hd (cf_messages fileNoSummary)) = Some sid
      \<and> filter (\<lambda>c. c_session_id c = sid) (conversations (store_of fileNoSummary)) = [row]
      \<and> c_conversation_summary row = Some ''Untitled conversation''"
    using conversation_summary_default [OF index_fileNoSummary]
    by (elim exE conjE) (auto simp: m)
next
  have m: "cf_meta fileAB = Some metaAB" "cm_summary metaAB = Some (Some ''Parser bug fix'')"
    by (simp_all add: fileAB_def metaAB_def)
  show "\<exists>sid row. m_session_id (hd (cf_messages fileAB)) = Some sid
      \<and> filter (\<lambda>c. c_session_id c = sid) (conversations (store_of fileAB)) = [row]
      \<and> c_conversation_summary row = Some ''Parser bug fix''"
    using conversation_summary_default [OF index_fileAB]
    by (elim exE conjE) (auto simp: m)
qed

text \<open>
  C5 (as stated) fails: in a file whose first message lacks a session id while the second
  carries \<open>S2\<close>, the first message record that carries a session id gives \<open>S2\<close>, yet
  \<open>index_conversation\<close> writes nothing.
\<close>

theorem session_id_later_message_counterexample:
  "spec_session_id (cf_messages fileLateSid) = Some ''S2''
   \<and> index_conversation empty_store fileLateSid False no_summarizer
       = Some (NoSessionId, empty_store)"
  by code_simp

text \<open>
  C5 (amended): for every parsed file with at least one message, the session identifier
  used by \<open>index_conversation\<close>, and attributed to every stored message of the file, is
  the one carried by the first message of the file; when the first message carries none,
  the file is not indexed and the store is left as it was, whatever later messages carry.
\<close>

theorem index_conversation_session_id:
  assumes "cf_messages f \<noteq> []"
  shows "(\<not> truthy (m_session_id (hd (cf_messages f))) \<longrightarrow>
            index_conversation s f b e = Some (NoSessionId, s))
       \<and> (\<forall>s1. index_conversation s f b e = Some (Indexed, s1) \<longrightarrow>
            (\<exists>sid old rows. m_session_id (hd (cf_messages f)) = Some sid \<and> sid \<noteq> []
               \<and> messages s1 = old @ rows
               \<and> map r_message_uuid rows = map m_uuid (cf_messages f)
               \<and> (\<forall>r \<in> set rows. r_session_id r = sid)
               \<and> (\<exists>c \<in> set (conversations s1). c_session_id c = sid)))"
proof (intro conjI allI impI)
  assume "\<not> truthy (m_session_id (hd (cf_messages f)))"
  with assms show "index_conversation s f b e = Some (NoSessionId, s)"
    by (simp add: index_conversation_def)
next
  fix s1
  assume ix: "index_conversation s f b e = Some (Indexed, s1)"
  have "Indexed \<noteq> NoMessages" "Indexed \<noteq> NoSessionId" by simp_all
  from index_conversation_result[OF ix this]
  obtain sid depths okb tbl where
    ne: "cf_messages f \<noteq> []" and sid: "m_session_id (hd (cf_messages f)) = Some sid"
    and sne: "sid \<noteq> []" and cd: "calculate_depth (cf_messages f) = Some depths"
    and ins: "insert_messages (messages (cleared s sid))
       (map (make_message_row f sid depths b e) (cf_messages f)) = (okb, tbl)"
    and out: "Indexed = (if okb then Indexed else IntegrityError)"
    and s1: "s1 = \<lparr>conversations = conversations (cleared s sid) @ [make_conversation_row f sid],
           messages = tbl\<rparr>"
    by blast
  let ?rows = "map (make_message_row f sid depths b e) (cf_messages f)"
  from out have okb by (auto split: if_splits)
  with insert_messages_prefix[OF ins] have tbl: "tbl = messages (cleared s sid) @ ?rows"
    by auto
  have m: "messages s1 = messages (cleared s sid) @ ?rows" by (simp add: s1 tbl)
  have u: "map r_message_uuid ?rows = map m_uuid (cf_messages f)"
    by (simp add: make_message_row_def)
  have c: "\<exists>c \<in> set (conversations s1). c_session_id c = sid"
    by (simp add: s1 make_conversation_row_def)
  have ss: "\<forall>r \<in> set ?rows. r_session_id r = sid"
    using make_message_row_session[of f sid depths b e "cf_messages f"] .
  show "\<exists>sid old rows. m_session_id (hd (cf_messages f)) = Some sid \<and> sid \<noteq> []
               \<and> messages s1 = old @ rows
               \<and> map r_message_uuid rows = map m_uuid (cf_messages f)
               \<and> (\<forall>r \<in> set rows. r_session_id r = sid)
               \<and> (\<exists>c \<in> set (conversations s1). c_session_id c = sid)"
    by (intro exI[of _ sid] exI[of _ "messages (cleared s sid)"] exI[of _ ?rows] conjI,
        fact sid, fact sne, fact m, fact u, fact ss, fact c)
qed

theorem index_conversation_session_id_witness:
  "cf_messages fileLateSid \<noteq> [] \<and> \<not> truthy (m_session_id (hd (cf_messages fileLateSid)))
   \<and> index_conversation empty_store fileLateSid False no_summarizer
        = Some (NoSessionId, empty_store)
   \<and> cf_messages fileAB \<noteq> []
   \<and> index_conversation empty_store fileAB False no_summarizer = Some (Indexed, store_of fileAB)
   \<and> (\<exists>sid old rows. m_session_id (hd (cf_messages fileAB)) = Some sid \<and> sid \<noteq> []
         \<and> messages (store_of fileAB) = old @ rows
         \<and> map r_message_uuid rows = map m_uuid (cf_messages fileAB)
         \<and> (\<forall>r \<in> set rows. r_session_id r = sid)
         \<and> (\<exists>c \<in> set (conversations (store_of fileAB)). c_session_id c = sid))"
proof -
  have ne1: "cf_messages fileLateSid \<noteq> []" by (simp add: fileLateSid_def)
  have nt: "\<not> truthy (m_session_id (hd (cf_messages fileLateSid)))"
    by (simp add: fileLateSid_def)
  have ne2: "cf_messages fileAB \<noteq> []" by (simp add: fileAB_def)
  have a: "index_conversation empty_store fileLateSid False no_summarizer
        = Some (NoSessionId, empty_store)"
    using index_conversation_session_id [OF ne1, of empty_store False no_summarizer,
        THEN conjunct1, THEN mp, OF nt] .
  have b: "\<exists>sid old rows. m_session_id (hd (cf_messages fileAB)) = Some sid \<and> sid \<noteq> []
         \<and> messages (store_of fileAB) = old @ rows
         \<and> map r_message_uuid rows = map m_uuid (cf_messages fileAB)
         \<and> (\<forall>r \<in> set rows. r_session_id r = sid)
         \<and> (\<exists>c \<in> set (conversations (store_of fileAB)). c_session_id c = sid)"
    using index_conversation_session_id [OF ne2, of empty_store False no_summarizer,
        THEN conjunct2, THEN spec, THEN mp, OF index_fileAB] .
  show ?thesis
    by (intro conjI, fact ne1, fact nt, fact a, fact ne2, fact index_fileAB, fact b)
qed

section \<open>Properties of batch summarization\<close>





lemma set_summary_uuid [simp]: "r_message_uuid (set_summary u s m r) = r_message_uuid r"
  by (simp add: set_summary_def)































lemma tblAB_rows:
  "map r_message_uuid tblAB = [''A'', ''B'']" "length tblAB = 2"
  by (code_simp, code_simp)





lemma named_count:
  "length (filter (\<lambda>e. \<exists>r \<in> set tblAB. names no_bind (r_message_uuid r) e) [entryA]) = 1"
  by code_simp






section \<open>Properties of search\<close>

lemma split_acc_nonspace:
  "\<forall>c \<in> set t. \<not> py_isspace c \<Longrightarrow> split_acc (t @ rest) cur = split_acc rest (cur @ t)"
  by (induction t arbitrary: cur) auto

lemma split_acc_good:
  "\<forall>c \<in> set cur. \<not> py_isspace c \<Longrightarrow>
     \<forall>t \<in> set (split_acc s cur). t \<noteq> [] \<and> (\<forall>c \<in> set t. \<not> py_isspace c)"
proof (induction s arbitrary: cur)
  case Nil
  then show ?case by auto
next
  case (Cons a s)
  show ?case
  proof (cases "py_isspace a")
    case True
    have "\<forall>t \<in> set (split_acc s []). t \<noteq> [] \<and> (\<forall>c \<in> set t. \<not> py_isspace c)"
      using Cons.IH[of "[]"] by simp
    with True Cons.prems show ?thesis by auto
  next
    case False
    with Cons.prems have "\<forall>c \<in> set (cur @ [a]). \<not> py_isspace c" by auto
    from Cons.IH[OF this] False show ?thesis by simp
  qed
qed

lemma split_ws_good: "t \<in> set (split_ws s) \<Longrightarrow> t \<noteq> [] \<and> (\<forall>c \<in> set t. \<not> py_isspace c)"
  using split_acc_good[of "[]" s] by (simp add: split_ws_def)

lemma space_is_space: "py_isspace (CHR '' '')"
  by (simp add: py_isspace_def)

lemma star_not_space: "\<not> py_isspace (CHR ''*'')"
  by (simp add: py_isspace_def)

lemma split_join:
  "\<forall>t \<in> set ts. t \<noteq> [] \<and> (\<forall>c \<in> set t. \<not> py_isspace c) \<Longrightarrow> split_ws (join '' '' ts) = ts"
proof (induction "'' ''" ts rule: join.induct)
  case 1
  then show ?case by (simp add: split_ws_def)
next
  case (2 x)
  then have "split_acc (x @ []) [] = split_acc [] ([] @ x)"
    by (intro split_acc_nonspace) simp
  with 2 show ?case by (simp add: split_ws_def)
next
  case (3 x y ys)
  then have x: "x \<noteq> []" "\<forall>c \<in> set x. \<not> py_isspace c" by auto
  from 3 have IH: "split_acc (join '' '' (y # ys)) [] = y # ys" by (simp add: split_ws_def)
  have "split_acc (x @ '' '' @ join '' '' (y # ys)) [] = split_acc ('' '' @ join '' '' (y # ys)) ([] @ x)"
    using x(2) by (rule split_acc_nonspace)
  also have "\<dots> = x # split_acc (join '' '' (y # ys)) []"
    using x(1) space_is_space by simp
  finally show ?case using IH by (simp add: split_ws_def)
qed

lemma fts_query_of_join:
  assumes "\<not> list_ex (\<lambda>op. contains query op) fts_operators"
  shows "fts_query_of query = join '' '' (map (\<lambda>t. t @ ''*'') (split_ws query))"
proof (cases "length (split_ws query) = 1")
  case True
  then obtain t where "split_ws query = [t]" by (cases "split_ws query") auto
  with assms show ?thesis by (simp add: fts_query_of_def)
next
  case False
  with assms show ?thesis by (simp add: fts_query_of_def Let_def)
qed

lemma split_fts_query_of:
  assumes "\<not> list_ex (\<lambda>op. contains query op) fts_operators"
  shows "split_ws (fts_query_of query) = map (\<lambda>t. t @ ''*'') (split_ws query)"
proof -
  have "\<forall>t \<in> set (map (\<lambda>t. t @ ''*'') (split_ws query)). t \<noteq> [] \<and> (\<forall>c \<in> set t. \<not> py_isspace c)"
    using split_ws_good[of _ query] star_not_space by auto
  from split_join[OF this] fts_query_of_join[OF assms] show ?thesis by simp
qed

lemma matching_rows_filter:
  assumes "plain_arguments cutoff_of days_back limit project_path"
  shows "matching_rows matches (if truthy_int days_back then cutoff_of (the days_back) else None)
           s project_path
     = filter (row_matches matches cutoff_of s days_back project_path) (joined_rows s)"
proof -
  have hit: "\<And>m. (r_message_uuid m \<in> set (map fst (filter (\<lambda>(u, summary). matches summary) (message_summaries_fts s))))
      \<longleftrightarrow> (\<exists>r \<in> set (messages s). r_message_uuid r = r_message_uuid m \<and> matches (r_summary r))"
    by (force simp: message_summaries_fts_def image_iff)
  have ts: "\<And>x c. timestamp_ge x c \<longleftrightarrow> (\<exists>t. x = Some t \<and> c \<le> t)"
    by (auto simp: timestamp_ge_def split: option.splits)
  from assms have pp: "project_path = None \<or> (\<exists>p. project_path = Some p \<and> p \<noteq> [])"
    by (cases project_path) (auto simp: plain_arguments_def)
  from assms have db: "days_back = None
      \<or> (\<exists>d lim. days_back = Some d \<and> d \<noteq> 0 \<and> cutoff_of d = Some lim)"
    by (cases days_back) (auto simp: plain_arguments_def)
  show ?thesis
    unfolding matching_rows_def Let_def hit ts
    using pp db
    by (elim disjE exE conjE) (auto simp: row_matches_def intro!: filter_cong)
qed

lemma sorted_desc_rev_sort_key:
  "sorted_wrt (\<lambda>a b. f b \<le> f a) (rev (sort_key f xs))"
proof -
  have "sorted (map f (sort_key f xs))" by (rule sorted_sort_key)
  then have "sorted_wrt (\<lambda>a b. f a \<le> f b) (sort_key f xs)"
    by (simp add: sorted_map)
  then show ?thesis by (simp add: sorted_wrt_rev)
qed

lemma has_operator_sample: "list_ex (\<lambda>op. contains ''a OR b'' op) fts_operators"
  by code_simp

lemma no_operator_sample: "\<not> list_ex (\<lambda>op. contains ''Fix'' op) fts_operators"
  by code_simp

lemma no_operator_sample2: "\<not> list_ex (\<lambda>op. contains ''fix bug'' op) fts_operators"
  by code_simp

lemma split_sample: "split_ws ''Fix'' = [''Fix'']"
  by code_simp

lemma split_sample2: "split_ws ''fix bug'' = [''fix'', ''bug'']"
  by code_simp

lemma sample_fts_empty: "sample_fts (fts_query_of []) = None"
  by code_simp

lemma plain_sample: "plain_arguments sample_cutoff (Some 7) 1 (Some ''/home/u/proj'')"
  by (simp add: plain_arguments_def sample_cutoff_def)

lemma plain_sample2: "plain_arguments sample_cutoff None 20 None"
  by (simp add: plain_arguments_def)

lemma sample_fts_some:
  "sample_fts (fts_query_of ''Fix'') = Some (the (sample_fts (fts_query_of ''Fix'')))"
proof -
  have "fts_query_of ''Fix'' \<noteq> []" by code_simp
  then show ?thesis by (simp add: sample_fts_def)
qed

text \<open>
  C6 (as stated) fails: the query \<open>a OR b\<close> has three words, so the specification's
  rewriting gives three prefix terms, while \<open>search_conversations\<close> passes it to the
  full-text engine as it is.
\<close>

theorem fts_query_operator_counterexample:
  "fts_query_of ''a OR b'' = ''a OR b'' \<and> spec_fts_query ''a OR b'' = ''a* OR* b*''
   \<and> fts_query_of ''a OR b'' \<noteq> spec_fts_query ''a OR b''"
  by code_simp

text \<open>
  C6 (amended): a query that contains one of \<open>AND\<close>, \<open>OR\<close>, \<open>NOT\<close> between spaces, or a
  double quote, is passed to the full-text engine unchanged. Every other query is
  rewritten: a single-word query into a prefix match on that word, and a multi-word query
  into a conjunction of independent prefix matches, one trailing wildcard per word. For a
  limit that is a count the store can take, a \<open>days_back\<close> that is absent or not zero with
  a cutoff date, and a project path that is absent or not empty: when the engine refuses
  the query so does the search; otherwise matches are evaluated against the full-text
  summary index only, the optional recency cutoff and project-path equality filter are
  applied, and the results are ordered by timestamp descending and truncated to
  \<open>limit\<close>.
\<close>

theorem search_conversations_spec:
  assumes "plain_arguments cutoff_of days_back limit project_path"
  shows "(list_ex (\<lambda>op. contains query op) fts_operators \<longrightarrow> fts_query_of query = query)
   \<and> (\<not> list_ex (\<lambda>op. contains query op) fts_operators \<longrightarrow>
        (\<forall>t. split_ws query = [t] \<longrightarrow> fts_query_of query = t @ ''*'')
        \<and> split_ws (fts_query_of query) = map (\<lambda>t. t @ ''*'') (split_ws query))
   \<and> (fts (fts_query_of query) = None \<longrightarrow>
        search_conversations fts cutoff_of s query days_back limit project_path
          = Inl OperationalError)
   \<and> (\<forall>matches. fts (fts_query_of query) = Some matches \<longrightarrow>
        (\<exists>rows. search_conversations fts cutoff_of s query days_back limit project_path
                   = Inr (take (nat limit) rows)
           \<and> mset rows
               = mset (filter (row_matches matches cutoff_of s days_back project_path)
                         (joined_rows s))
           \<and> sorted_wrt (\<lambda>a b. r_timestamp (fst b) \<le> r_timestamp (fst a)) rows))"
proof (intro conjI impI allI)
  assume "list_ex (\<lambda>op. contains query op) fts_operators"
  then show "fts_query_of query = query" by (simp add: fts_query_of_def)
next
  fix t
  assume "\<not> list_ex (\<lambda>op. contains query op) fts_operators" "split_ws query = [t]"
  then show "fts_query_of query = t @ ''*''" by (simp add: fts_query_of_def)
next
  assume "\<not> list_ex (\<lambda>op. contains query op) fts_operators"
  then show "split_ws (fts_query_of query) = map (\<lambda>t. t @ ''*'') (split_ws query)"
    by (rule split_fts_query_of)
next
  from assms have lim: "sql_integer limit" "\<not> limit < 0"
    by (simp_all add: plain_arguments_def sql_integer_def)
  from assms have nov: "\<not> (truthy_int days_back \<and> cutoff_of (the days_back) = None)"
    by (cases days_back) (auto simp: plain_arguments_def)
  {
    assume "fts (fts_query_of query) = None"
    with lim nov
    show "search_conversations fts cutoff_of s query days_back limit project_path
            = Inl OperationalError"
      by (simp add: search_conversations_def Let_def)
  next
    fix matches
    assume m: "fts (fts_query_of query) = Some matches"
    let ?key = "\<lambda>(m, c). r_timestamp m"
    let ?match = "matching_rows matches
        (if truthy_int days_back then cutoff_of (the days_back) else None) s project_path"
    let ?rows = "order_by_timestamp_desc ?match"
    have a: "search_conversations fts cutoff_of s query days_back limit project_path
               = Inr (take (nat limit) ?rows)"
      using m lim nov by (simp add: search_conversations_def Let_def sql_limit_def)
    have "mset ?rows = mset ?match"
      by (simp add: order_by_timestamp_desc_def)
    then have b: "mset ?rows = mset (filter (row_matches matches cutoff_of s days_back project_path)
                           (joined_rows s))"
      by (simp only: matching_rows_filter[OF assms])
    have k: "?key = (\<lambda>a. r_timestamp (fst a))" by (simp add: fun_eq_iff split_beta)
    have c: "sorted_wrt (\<lambda>a b. r_timestamp (fst b) \<le> r_timestamp (fst a)) ?rows"
      unfolding order_by_timestamp_desc_def k
      by (rule sorted_desc_rev_sort_key)
    show "\<exists>rows. search_conversations fts cutoff_of s query days_back limit project_path
                     = Inr (take (nat limit) rows)
             \<and> mset rows
                 = mset (filter (row_matches matches cutoff_of s days_back project_path)
                           (joined_rows s))
             \<and> sorted_wrt (\<lambda>a b. r_timestamp (fst b) \<le> r_timestamp (fst a)) rows"
      by (intro exI[of _ ?rows] conjI, fact a, fact b, fact c)
  }
qed

theorem search_conversations_spec_witness:
  "fts_query_of ''a OR b'' = ''a OR b''
   \<and> fts_query_of ''Fix'' = ''Fix*''
   \<and> split_ws (fts_query_of ''fix bug'') = [''fix*'', ''bug*'']
   \<and> search_conversations sample_fts sample_cutoff (store_of fileAB) [] None 20 None
       = Inl OperationalError
   \<and> (\<exists>rows. search_conversations sample_fts sample_cutoff (store_of fileAB) ''Fix''
                 (Some 7) 1 (Some ''/home/u/proj'') = Inr (take (nat 1) rows)
         \<and> mset rows
             = mset (filter (row_matches (the (sample_fts (fts_query_of ''Fix''))) sample_cutoff
                               (store_of fileAB) (Some 7) (Some ''/home/u/proj''))
                       (joined_rows (store_of fileAB)))
         \<and> sorted_wrt (\<lambda>a b. r_timestamp (fst b) \<le> r_timestamp (fst a)) rows)"
proof -
  note T = search_conversations_spec
  have a: "fts_query_of ''a OR b'' = ''a OR b''"
    using T [OF plain_sample2, of "''a OR b''", THEN conjunct1, THEN mp, OF has_operator_sample] .
  note N = T [OF plain_sample2, of "''Fix''", THEN conjunct2, THEN conjunct1, THEN mp,
      OF no_operator_sample]
  have b: "fts_query_of ''Fix'' = ''Fix*''"
    using N [THEN conjunct1, THEN spec, THEN mp, OF split_sample] by simp
  note N2 = T [OF plain_sample2, of "''fix bug''", THEN conjunct2, THEN conjunct1, THEN mp,
      OF no_operator_sample2]
  have c: "split_ws (fts_query_of ''fix bug'') = [''fix*'', ''bug*'']"
    using N2 [THEN conjunct2] by (simp add: split_sample2)
  have d: "search_conversations sample_fts sample_cutoff (store_of fileAB) [] None 20 None
       = Inl OperationalError"
    using T [OF plain_sample2, of "[]" sample_fts "store_of fileAB",
        THEN conjunct2, THEN conjunct2, THEN conjunct1, THEN mp, OF sample_fts_empty] .
  note e = T [OF plain_sample, of "''Fix''" sample_fts "store_of fileAB",
        THEN conjunct2, THEN conjunct2, THEN conjunct2, THEN spec, THEN mp, OF sample_fts_some]
  show ?thesis
    by (intro conjI, fact a, fact b, fact c, fact d, fact e)
qed

section \<open>Properties of the watch coordinator\<close>













end
